theory Spec2Isabelle
  imports Main "HOL-Library.Word"
begin

section \<open>The query log: data model\<close>

text \<open>
  \<^verbatim>\<open>dbms/include/DB/Interpreters/QueryLog.h\<close>. The enums of \<^verbatim>\<open>QueryLogElement\<close> are
  datatypes; \<open>Type_value\<close> is the numeric value C++ gives each enumerator, which is what a
  condition of an \<^verbatim>\<open>if\<close> tests (non-zero is true).
\<close>

datatype Type = SHUTDOWN | QUERY_START | QUERY_FINISH

datatype Interface = TCP | HTTP | OLAP_HTTP

datatype HTTPMethod = UNKNOWN | GET | POST

fun Type_value :: "Type \<Rightarrow> nat" where
  "Type_value SHUTDOWN = 0"
| "Type_value QUERY_START = 1"
| "Type_value QUERY_FINISH = 2"

record QueryLogElement =
  type :: Type
  event_time :: int
  query_start_time :: int
  query_duration_ms :: "64 word"
  read_rows :: "64 word"
  read_bytes :: "64 word"
  result_rows :: "64 word"
  result_bytes :: "64 word"
  query :: string
  interface :: Interface
  http_method :: HTTPMethod
  ip_address :: string
  user :: string
  query_id :: string

definition DBMS_QUERY_LOG_QUEUE_SIZE :: nat where
  "DBMS_QUERY_LOG_QUEUE_SIZE = 1024"

text \<open>
  A block is a list of named, typed columns. The two column classes that \<^verbatim>\<open>createBlock\<close>
  instantiates hold their rows as a list; a freshly allocated column has no rows.
\<close>

datatype Column = ColumnUInt8 "8 word list" | ColumnUInt32 "32 word list"

datatype DataType = DataTypeUInt8 | DataTypeDateTime

record ColumnWithNameAndType =
  column :: Column
  data_type :: DataType
  name :: string

type_synonym Block = "ColumnWithNameAndType list"

text \<open>
  Whatever a \<^verbatim>\<open>catch (...)\<close> can catch. The source never inspects the exception, it only
  hands it to the error log, so a description is all the model keeps.
\<close>

datatype thrown = Thrown string

text \<open>
  The members of \<^verbatim>\<open>class QueryLog\<close> that the code reads or writes (\<^verbatim>\<open>context\<close> is a
  reference that is only stored), followed by the two locals of \<^verbatim>\<open>threadFunction\<close> that
  live across iterations of its loop, and by the error log that \<^verbatim>\<open>tryLogCurrentException\<close>
  writes to (each entry is the \<^verbatim>\<open>__PRETTY_FUNCTION__\<close> of the caller and the exception).
  \<open>table\<close> is the \<^verbatim>\<open>StoragePtr\<close>: nothing in the class assigns it.
  \<open>time_after_last_write\<close> is the clock reading, in nanoseconds, at which the stopwatch
  of that name was last restarted. Clock readings and the interval are \<^verbatim>\<open>UInt64\<close> and
  \<^verbatim>\<open>size_t\<close>: 64-bit words, whose subtraction wraps around.
\<close>

record QueryLog =
  database_name :: string
  table_name :: string
  table :: "string option"
  flush_interval_milliseconds :: "64 word"
  queue :: "QueryLogElement list"
  data :: "QueryLogElement list"
  time_after_last_write :: "64 word"
  first :: bool
  error_log :: "(string \<times> thrown) list"

section \<open>Building a block and flushing\<close>

text \<open>
  \<^verbatim>\<open>createBlock\<close> (lines 200-225) allocates three empty columns with \<^verbatim>\<open>new\<close>. The only
  way it can fail is the allocation; the argument \<open>new_throws\<close> says whether it does. The
  function is a member and could read the object, so the model passes the object to it.
\<close>

definition createBlock :: "thrown option \<Rightarrow> QueryLog \<Rightarrow> thrown + Block" where
  "createBlock new_throws q =
     (case new_throws of
        Some e \<Rightarrow> Inl e
      | None \<Rightarrow> Inr
          [\<lparr>column = ColumnUInt8 [], data_type = DataTypeUInt8, name = ''type''\<rparr>,
           \<lparr>column = ColumnUInt32 [], data_type = DataTypeDateTime, name = ''event_time''\<rparr>,
           \<lparr>column = ColumnUInt32 [], data_type = DataTypeDateTime,
            name = ''query_start_time''\<rparr>])"

text \<open>The values of \<^verbatim>\<open>__PRETTY_FUNCTION__\<close> in the two functions that log.\<close>

definition PRETTY_FUNCTION_flush :: string where
  "PRETTY_FUNCTION_flush = ''void DB::QueryLog::flush()''"

definition PRETTY_FUNCTION_threadFunction :: string where
  "PRETTY_FUNCTION_threadFunction = ''void DB::QueryLog::threadFunction()''"

text \<open>
  Modelled from the spec: \<^verbatim>\<open>tryLogCurrentException\<close> is not among the sources. The spec
  describes it as the error-reporting collaborator \<^verbatim>\<open>report_error(context, error)\<close>, used
  for diagnostics and never for control flow: it records the place and the exception.
\<close>

definition tryLogCurrentException :: "string \<Rightarrow> thrown \<Rightarrow> QueryLog \<Rightarrow> QueryLog" where
  "tryLogCurrentException place e q = q\<lparr>error_log := error_log q @ [(place, e)]\<rparr>"

text \<open>
  \<^verbatim>\<open>flush\<close> (lines 227-241): the \<^verbatim>\<open>try\<close> block builds the block and stops there (forming
  the rows and writing them is a \<^verbatim>\<open>TODO\<close>), so the block is dropped; an exception is logged;
  then \<^verbatim>\<open>data.clear()\<close> runs on both paths.
\<close>

definition flush :: "thrown option \<Rightarrow> QueryLog \<Rightarrow> QueryLog" where
  "flush new_throws q =
     (let q1 = (case createBlock new_throws q of
                  Inr block \<Rightarrow> q
                | Inl e \<Rightarrow> tryLogCurrentException PRETTY_FUNCTION_flush e q)
      in q1\<lparr>data := []\<rparr>)"

section \<open>The bounded queue and the producers' side\<close>

text \<open>
  Modelled from the spec: \<^verbatim>\<open>ConcurrentBoundedQueue\<close> is not among the sources. Spec 4.1:
  \<^verbatim>\<open>push\<close> inserts unconditionally, blocking the caller while the channel is at capacity;
  \<^verbatim>\<open>pop\<close> blocks until an item is available; \<^verbatim>\<open>try_pop(timeout)\<close> blocks up to the timeout
  and returns an item or "none available"; delivery is FIFO and no operation fails.
  The queue is the list of its records, oldest first. \<open>None\<close> from \<open>queue_push\<close> says
  that the caller blocks in the present state.
\<close>

definition queue_push :: "nat \<Rightarrow> 'a \<Rightarrow> 'a list \<Rightarrow> 'a list option" where
  "queue_push capacity x xs = (if length xs < capacity then Some (xs @ [x]) else None)"

text \<open>
  Modelled from the spec: \<^verbatim>\<open>pop()\<close> blocks until an item is available (\<open>None\<close> on the
  empty queue) and hands out the oldest record.
\<close>

definition queue_pop :: "'a list \<Rightarrow> ('a \<times> 'a list) option" where
  "queue_pop xs = (case xs of [] \<Rightarrow> None | x # rest \<Rightarrow> Some (x, rest))"

text \<open>
  Modelled from the spec: \<^verbatim>\<open>tryPop(element, timeout)\<close> hands out the oldest record at once
  when the queue holds one. On an empty queue it blocks up to \<open>timeout\<close> milliseconds:
  \<open>arrival\<close> is the record, if any, that a producer pushes while the call waits, with the
  milliseconds into the wait at which it comes. The call hands that record out when it
  comes before the timeout has run out, and reports that none is available otherwise.
\<close>

definition queue_tryPop ::
  "64 word \<Rightarrow> (64 word \<times> 'a) option \<Rightarrow> 'a list \<Rightarrow> 'a option \<times> 'a list" where
  "queue_tryPop timeout arrival xs =
     (case xs of
        x # rest \<Rightarrow> (Some x, rest)
      | [] \<Rightarrow>
         (case arrival of
            None \<Rightarrow> (None, [])
          | Some (delay, x) \<Rightarrow> if delay < timeout then (Some x, []) else (None, [])))"

text \<open>
  The constructor (lines 92-100) stores its arguments; the queue is built with
  \<^verbatim>\<open>DBMS_QUERY_LOG_QUEUE_SIZE\<close> slots and is empty, as is \<^verbatim>\<open>data\<close>. The thread it starts
  creates its stopwatch at clock reading \<open>now\<close> and sets \<^verbatim>\<open>first = true\<close>.
\<close>

definition QueryLog_new :: "string \<Rightarrow> string \<Rightarrow> 64 word \<Rightarrow> 64 word \<Rightarrow> QueryLog" where
  "QueryLog_new database_name0 table_name0 flush_interval_milliseconds0 now =
     \<lparr>database_name = database_name0, table_name = table_name0, table = None,
      flush_interval_milliseconds = flush_interval_milliseconds0,
      queue = [], data = [], time_after_last_write = now, first = True, error_log = []\<rparr>"

text \<open>\<^verbatim>\<open>add\<close> (lines 115-119) is \<^verbatim>\<open>queue.push(element)\<close> and nothing else.\<close>

definition add :: "QueryLogElement \<Rightarrow> QueryLog \<Rightarrow> QueryLog option" where
  "add element q =
     (case queue_push DBMS_QUERY_LOG_QUEUE_SIZE element (queue q) of
        None \<Rightarrow> None
      | Some xs \<Rightarrow> Some (q\<lparr>queue := xs\<rparr>))"

section \<open>The writer thread\<close>

text \<open>
  What the environment answers during one iteration of the loop of \<^verbatim>\<open>threadFunction\<close>:
  the readings of the clock (nanoseconds) at the four places where the stopwatch is
  restarted or read, whether one of the three operations that can raise does so, and
  the record that a producer pushes while \<^verbatim>\<open>tryPop\<close> waits on an empty queue, with the
  milliseconds into the wait at which it comes (a record pushed at any other moment is a
  \<open>Submit\<close> step of the schedule, below). A reading, a flag or an arrival of a place the
  iteration does not reach is not used.
\<close>

record Observation =
  now_first :: "64 word"
  now_wait :: "64 word"
  arrival :: "(64 word \<times> QueryLogElement) option"
  pop_throws :: "thrown option"
  push_back_throws :: "thrown option"
  now_check :: "64 word"
  new_throws :: "thrown option"
  now_restart :: "64 word"

text \<open>The stopwatch: \<^verbatim>\<open>restart()\<close> and \<^verbatim>\<open>elapsed() / 1000000\<close>.\<close>

definition restart :: "64 word \<Rightarrow> QueryLog \<Rightarrow> QueryLog" where
  "restart now q = q\<lparr>time_after_last_write := now\<rparr>"

definition milliseconds_elapsed :: "64 word \<Rightarrow> QueryLog \<Rightarrow> 64 word" where
  "milliseconds_elapsed now q = (now - time_after_last_write q) div 1000000"

datatype 'a attempt = Throws thrown | Blocks | Yields 'a

datatype flow = Continue | Break | Blocked

text \<open>Lines 151-155.\<close>

definition restart_if_first :: "Observation \<Rightarrow> QueryLog \<Rightarrow> QueryLog" where
  "restart_if_first ob q = (if first q then (restart (now_first ob) q)\<lparr>first := False\<rparr> else q)"

text \<open>
  Lines 167-169: the timeout given to \<^verbatim>\<open>tryPop\<close>, or \<open>None\<close> when \<^verbatim>\<open>tryPop\<close> is not
  called because the interval has already passed.
\<close>

definition tryPop_timeout :: "64 word \<Rightarrow> QueryLog \<Rightarrow> 64 word option" where
  "tryPop_timeout now q =
     (if milliseconds_elapsed now q < flush_interval_milliseconds q
      then Some (flush_interval_milliseconds q - milliseconds_elapsed now q)
      else None)"

text \<open>Lines 157-170: the result is \<^verbatim>\<open>has_element\<close> together with \<^verbatim>\<open>element\<close>.\<close>

definition take_element ::
  "Observation \<Rightarrow> QueryLog \<Rightarrow> (QueryLogElement option \<times> QueryLog) attempt" where
  "take_element ob q =
     (if data q = [] then
        (case pop_throws ob of
           Some e \<Rightarrow> Throws e
         | None \<Rightarrow>
            (case queue_pop (queue q) of
               None \<Rightarrow> Blocks
             | Some (element, rest) \<Rightarrow> Yields (Some element, q\<lparr>queue := rest\<rparr>)))
      else
        (case tryPop_timeout (now_wait ob) q of
           None \<Rightarrow> Yields (None, q)
         | Some timeout \<Rightarrow>
            (case pop_throws ob of
               Some e \<Rightarrow> Throws e
             | None \<Rightarrow>
                (case queue_tryPop timeout (arrival ob) (queue q) of
                   (has_element, rest) \<Rightarrow> Yields (has_element, q\<lparr>queue := rest\<rparr>)))))"

text \<open>
  Lines 172-181. The condition is the assignment \<^verbatim>\<open>element.type = QueryLogElement::SHUTDOWN\<close>:
  it stores \<^verbatim>\<open>SHUTDOWN\<close> in the element and is true when the stored value is not zero.
\<close>

definition store_element ::
  "Observation \<Rightarrow> QueryLogElement option \<Rightarrow> QueryLog \<Rightarrow> (flow \<times> QueryLog) attempt" where
  "store_element ob has_element q =
     (case has_element of
        None \<Rightarrow> Yields (Continue, q)
      | Some element0 \<Rightarrow>
         (let element = element0\<lparr>type := SHUTDOWN\<rparr> in
          if Type_value (type element) \<noteq> 0
          then Yields (Break, flush (new_throws ob) q)
          else (case push_back_throws ob of
                  Some e \<Rightarrow> Throws e
                | None \<Rightarrow> Yields (Continue, q\<lparr>data := data q @ [element]\<rparr>))))"

text \<open>Lines 183-189.\<close>

definition flush_due :: "64 word \<Rightarrow> QueryLog \<Rightarrow> bool" where
  "flush_due now q = (flush_interval_milliseconds q \<le> milliseconds_elapsed now q)"

definition flush_if_due :: "Observation \<Rightarrow> QueryLog \<Rightarrow> QueryLog" where
  "flush_if_due ob q =
     (if flush_due (now_check ob) q
      then restart (now_restart ob) (flush (new_throws ob) q)
      else q)"

text \<open>
  Lines 151-181, the part of the \<^verbatim>\<open>try\<close> block before the timed flush. \<open>Inl\<close> is an
  exception together with the object as it is when the exception leaves the block.
\<close>

definition before_check ::
  "Observation \<Rightarrow> QueryLog \<Rightarrow> (thrown \<times> QueryLog) + (flow \<times> QueryLog)" where
  "before_check ob q0 =
     (let q = restart_if_first ob q0 in
      case take_element ob q of
        Throws e \<Rightarrow> Inl (e, q)
      | Blocks \<Rightarrow> Inr (Blocked, q)
      | Yields (has_element, q1) \<Rightarrow>
         (case store_element ob has_element q1 of
            Throws e \<Rightarrow> Inl (e, q1)
          | Blocks \<Rightarrow> Inr (Blocked, q1)
          | Yields r \<Rightarrow> Inr r))"

text \<open>The whole \<^verbatim>\<open>try\<close> block, lines 149-190.\<close>

definition loop_try ::
  "Observation \<Rightarrow> QueryLog \<Rightarrow> (thrown \<times> QueryLog) + (flow \<times> QueryLog)" where
  "loop_try ob q0 =
     (case before_check ob q0 of
        Inr (Continue, q) \<Rightarrow> Inr (Continue, flush_if_due ob q)
      | r \<Rightarrow> r)"

text \<open>One iteration: the \<^verbatim>\<open>try\<close> block and its \<^verbatim>\<open>catch (...)\<close>, lines 149-196.\<close>

definition iteration :: "Observation \<Rightarrow> QueryLog \<Rightarrow> flow \<times> QueryLog" where
  "iteration ob q0 =
     (case loop_try ob q0 of
        Inl (e, q) \<Rightarrow>
          (Continue, tryLogCurrentException PRETTY_FUNCTION_threadFunction e (q\<lparr>data := []\<rparr>))
      | Inr r \<Rightarrow> r)"

text \<open>
  The loop runs beside the producers. A schedule lists what happens in order: a producer
  completes \<open>add\<close> (when the queue is full the producer stays blocked and nothing changes),
  or the writer runs one iteration. \<^verbatim>\<open>while (true)\<close> has no bound, so the schedule is the
  fuel: \<open>Running\<close> is a thread still in its loop when the schedule ends, \<open>Returned\<close> a thread
  that has left the loop by \<^verbatim>\<open>break\<close>. An iteration that blocks in \<^verbatim>\<open>pop\<close> has done nothing
  after the restart of the first pass, so waiting is the same as entering the loop again.
\<close>

datatype action = Submit QueryLogElement | Iterate Observation

datatype thread = Running QueryLog | Returned QueryLog

fun threadFunction :: "action list \<Rightarrow> QueryLog \<Rightarrow> thread" where
  "threadFunction [] q = Running q"
| "threadFunction (Submit element # schedule) q =
     threadFunction schedule (case add element q of None \<Rightarrow> q | Some q' \<Rightarrow> q')"
| "threadFunction (Iterate ob # schedule) q =
     (case iteration ob q of
        (Break, q') \<Rightarrow> Returned q'
      | (Continue, q') \<Rightarrow> threadFunction schedule q'
      | (Blocked, q') \<Rightarrow> threadFunction schedule q')"

text \<open>
  The destructor (lines 102-110) pushes an element whose type is \<^verbatim>\<open>SHUTDOWN\<close> (its other
  fields are whatever \<open>elem\<close> holds) and joins the thread. It returns the final object
  when the thread returns; \<open>None\<close> is a destructor that has not returned when the schedule
  ends, blocked in \<^verbatim>\<open>push\<close> or in \<^verbatim>\<open>join\<close>.
\<close>

definition destructor :: "QueryLogElement \<Rightarrow> action list \<Rightarrow> QueryLog \<Rightarrow> QueryLog option" where
  "destructor elem schedule q =
     (case add (elem\<lparr>type := SHUTDOWN\<rparr>) q of
        None \<Rightarrow> None
      | Some q1 \<Rightarrow>
         (case threadFunction schedule q1 of
            Returned q2 \<Rightarrow> Some q2
          | Running q2 \<Rightarrow> None))"

text \<open>
  The timed flushes of a run, in order: for each iteration that reaches line 187, the
  clock reading that made the flush due and the reading at the restart after it.
\<close>

definition timed_flush_runs :: "Observation \<Rightarrow> QueryLog \<Rightarrow> bool" where
  "timed_flush_runs ob q0 =
     (case before_check ob q0 of
        Inr (Continue, q) \<Rightarrow> flush_due (now_check ob) q
      | _ \<Rightarrow> False)"

fun flush_times :: "action list \<Rightarrow> QueryLog \<Rightarrow> (64 word \<times> 64 word) list" where
  "flush_times [] q = []"
| "flush_times (Submit element # schedule) q =
     flush_times schedule (case add element q of None \<Rightarrow> q | Some q' \<Rightarrow> q')"
| "flush_times (Iterate ob # schedule) q =
     (if timed_flush_runs ob q then [(now_check ob, now_restart ob)] else [])
     @ (case iteration ob q of
          (Break, q') \<Rightarrow> []
        | (Continue, q') \<Rightarrow> flush_times schedule q'
        | (Blocked, q') \<Rightarrow> flush_times schedule q')"

text \<open>
  Two timed flushes are a full interval apart when the stopwatch, restarted at the end of
  the earlier one, shows at least \<open>interval\<close> milliseconds at the reading that makes the
  later one due.
\<close>

definition spaced :: "64 word \<Rightarrow> 64 word \<times> 64 word \<Rightarrow> 64 word \<times> 64 word \<Rightarrow> bool" where
  "spaced interval earlier later = (interval \<le> (fst later - snd earlier) div 1000000)"

section \<open>The function h3HexAreaM2\<close>

text \<open>
  \<^verbatim>\<open>dbms/src/Functions/h3HexAreaM2.cpp\<close>, \<^verbatim>\<open>executeImpl\<close> (lines 52-73). \<open>col_hindex\<close> is
  the column at position \<^verbatim>\<open>arguments[0]\<close> of the block, a column of \<^verbatim>\<open>UInt8\<close>
  (\<^verbatim>\<open>getReturnTypeImpl\<close> admits nothing else) with \<^verbatim>\<open>input_rows_count\<close> rows, and \<^verbatim>\<open>getUInt\<close>
  reads a row of it as a \<^verbatim>\<open>UInt64\<close>. \<^verbatim>\<open>MAX_H3_RES\<close> and \<^verbatim>\<open>hexAreaM2\<close> belong to the H3 library and
  are parameters, as is the \<^verbatim>\<open>Float64\<close> type \<open>'r\<close> of the results. The exception carries the
  resolution that its message quotes.
\<close>

datatype Exception = ARGUMENT_OUT_OF_BOUND "64 word"

definition getUInt :: "8 word list \<Rightarrow> nat \<Rightarrow> 64 word" where
  "getUInt col row = ucast (col ! row)"

text \<open>The loop over the rows (lines 60-70), with the destination vector as it fills.\<close>

fun executeImpl_rows ::
  "(64 word \<Rightarrow> 'r) \<Rightarrow> 64 word \<Rightarrow> 8 word list \<Rightarrow> nat list \<Rightarrow> 'r list
    \<Rightarrow> Exception + 'r list" where
  "executeImpl_rows hexAreaM2 MAX_H3_RES col_hindex [] dst_data = Inr dst_data"
| "executeImpl_rows hexAreaM2 MAX_H3_RES col_hindex (row # rows) dst_data =
     (let resolution = getUInt col_hindex row in
      if resolution > MAX_H3_RES then Inl (ARGUMENT_OUT_OF_BOUND resolution)
      else executeImpl_rows hexAreaM2 MAX_H3_RES col_hindex rows
             (dst_data[row := hexAreaM2 resolution]))"

text \<open>
  \<^verbatim>\<open>dst_data.resize(input_rows_count)\<close> gives the vector its length and leaves its cells
  as they are, \<open>uninitialized\<close>; the rows are \<^verbatim>\<open>ext::range(0, input_rows_count)\<close>. The
  result is the column stored at position \<^verbatim>\<open>result\<close> of the block, or the exception.
\<close>

definition executeImpl ::
  "(64 word \<Rightarrow> 'r) \<Rightarrow> 64 word \<Rightarrow> 'r \<Rightarrow> 8 word list \<Rightarrow> nat \<Rightarrow> Exception + 'r list" where
  "executeImpl hexAreaM2 MAX_H3_RES uninitialized col_hindex input_rows_count =
     executeImpl_rows hexAreaM2 MAX_H3_RES col_hindex [0..<input_rows_count]
       (replicate input_rows_count uninitialized)"

section \<open>Concrete inputs\<close>

definition example_element :: QueryLogElement where
  "example_element =
     \<lparr>type = QUERY_START, event_time = 10, query_start_time = 10, query_duration_ms = 0,
      read_rows = 0, read_bytes = 0, result_rows = 0, result_bytes = 0, query = ''SELECT 1'',
      interface = TCP, http_method = UNKNOWN, ip_address = ''::1'', user = ''default'',
      query_id = ''q1''\<rparr>"

text \<open>A log that flushes every 100 ms, just constructed at clock reading 0.\<close>

definition example_log :: QueryLog where
  "example_log = QueryLog_new ''system'' ''query_log'' 100 0"

text \<open>
  An iteration in which nothing raises and nothing arrives during a wait in \<^verbatim>\<open>tryPop\<close>:
  the clock reads \<open>t1\<close> before the wait for an element and \<open>t2\<close> after it.
\<close>

definition quiet :: "64 word \<Rightarrow> 64 word \<Rightarrow> Observation" where
  "quiet t1 t2 =
     \<lparr>now_first = t1, now_wait = t1, arrival = None, pop_throws = None, push_back_throws = None,
      now_check = t2, new_throws = None, now_restart = t2\<rparr>"

text \<open>
  A log whose accumulator holds one record and whose queue is empty, its stopwatch
  restarted at clock reading 0; and an iteration that reads the clock at 40 ms before it
  waits, during which a producer pushes a record \<open>delay\<close> milliseconds into the wait.
\<close>

definition waiting_log :: QueryLog where
  "waiting_log = example_log\<lparr>first := False, data := [example_element]\<rparr>"

definition arrival_at :: "64 word \<Rightarrow> Observation" where
  "arrival_at delay = (quiet 40000000 150000000)\<lparr>arrival := Some (delay, example_element)\<rparr>"

section \<open>Properties\<close>

subsection \<open>The block and the flush\<close>

lemma flush_raises:
  "flush (Some e) q = q\<lparr>data := [], error_log := error_log q @ [(PRETTY_FUNCTION_flush, e)]\<rparr>"
  by (simp add: flush_def createBlock_def tryLogCurrentException_def)

lemma flush_returns: "flush None q = q\<lparr>data := []\<rparr>"
  by (simp add: flush_def createBlock_def)

lemma flush_keeps [simp]:
  "flush_interval_milliseconds (flush failure q) = flush_interval_milliseconds q"
  "time_after_last_write (flush failure q) = time_after_last_write q"
  "first (flush failure q) = first q"
  by (cases failure; simp add: flush_raises flush_returns)+

text \<open>
  C10. \<open>createBlock\<close> returns a block of exactly three columns, named \<open>type\<close>,
  \<open>event_time\<close> and \<open>query_start_time\<close>, each without rows; what it returns (or
  raises, when the allocation fails) is the same whatever the accumulator \<open>data\<close> holds.
\<close>

theorem createBlock_three_columns:
  "createBlock None q =
     Inr [\<lparr>column = ColumnUInt8 [], data_type = DataTypeUInt8, name = ''type''\<rparr>,
          \<lparr>column = ColumnUInt32 [], data_type = DataTypeDateTime, name = ''event_time''\<rparr>,
          \<lparr>column = ColumnUInt32 [], data_type = DataTypeDateTime,
           name = ''query_start_time''\<rparr>]
   \<and> createBlock failure (q\<lparr>data := records\<rparr>) = createBlock failure q"
  by (simp add: createBlock_def)

text \<open>
  C9. Every call of \<open>flush\<close> leaves the accumulator \<open>data\<close> empty, whether building the
  block succeeded or raised: the clearing is unconditional.
\<close>

theorem flush_clears_data: "data (flush failure q) = []"
  by (simp add: flush_def Let_def split: sum.split)

subsection \<open>The queue\<close>

text \<open>
  C7. The queue has 1024 slots. \<open>add\<close> either appends the record behind those already
  queued, or, when all slots are taken, blocks; it has no other outcome, so it neither
  fails nor drops. Records added while there is room are queued in the order of the calls,
  and \<open>pop\<close> and \<open>tryPop\<close> hand out the oldest record first.
\<close>

theorem add_blocks_or_appends:
  "DBMS_QUERY_LOG_QUEUE_SIZE = 1024
   \<and> add element q =
       (if length (queue q) < 1024 then Some (q\<lparr>queue := queue q @ [element]\<rparr>) else None)
   \<and> (length (queue q) + length es \<le> 1024 \<longrightarrow>
        fold (\<lambda>e r. Option.bind r (add e)) es (Some q) = Some (q\<lparr>queue := queue q @ es\<rparr>))
   \<and> queue_pop (x # xs) = Some (x, xs)
   \<and> queue_tryPop timeout pushed (x # xs) = (Some x, xs)"
proof -
  have a: "add e p =
      (if length (queue p) < 1024 then Some (p\<lparr>queue := queue p @ [e]\<rparr>) else None)" for e p
    by (simp add: add_def queue_push_def DBMS_QUERY_LOG_QUEUE_SIZE_def)
  have b: "length (queue p) + length es \<le> 1024 \<Longrightarrow>
      fold (\<lambda>e r. Option.bind r (add e)) es (Some p) = Some (p\<lparr>queue := queue p @ es\<rparr>)" for p
    by (induction es arbitrary: p) (simp_all add: a)
  show ?thesis
    using a b by (simp add: DBMS_QUERY_LOG_QUEUE_SIZE_def queue_pop_def queue_tryPop_def)
qed

theorem add_blocks_or_appends_witness:
  "length (queue example_log) + length [example_element, example_element\<lparr>type := QUERY_FINISH\<rparr>]
     \<le> 1024
   \<and> fold (\<lambda>e r. Option.bind r (add e))
        [example_element, example_element\<lparr>type := QUERY_FINISH\<rparr>] (Some example_log) =
      Some (example_log\<lparr>queue := [example_element, example_element\<lparr>type := QUERY_FINISH\<rparr>]\<rparr>)"
proof -
  have room: "length (queue example_log)
      + length [example_element, example_element\<lparr>type := QUERY_FINISH\<rparr>] \<le> 1024"
    by (simp add: example_log_def QueryLog_new_def)
  have empty: "queue example_log = []"
    by (simp add: example_log_def QueryLog_new_def)
  from add_blocks_or_appends
    [where q = example_log and es = "[example_element, example_element\<lparr>type := QUERY_FINISH\<rparr>]",
      THEN conjunct2, THEN conjunct2, THEN conjunct1, THEN mp, OF room]
  show ?thesis using room by (simp add: empty)
qed

subsection \<open>One iteration of the writer\<close>

lemma restart_if_first_keeps [simp]:
  "data (restart_if_first ob q) = data q"
  "error_log (restart_if_first ob q) = error_log q"
  "queue (restart_if_first ob q) = queue q"
  "flush_interval_milliseconds (restart_if_first ob q) = flush_interval_milliseconds q"
  "\<not> first (restart_if_first ob q)"
  by (simp_all add: restart_if_first_def restart_def)

lemma restart_if_first_idle: "\<not> first q \<Longrightarrow> restart_if_first ob q = q"
  by (simp add: restart_if_first_def)

lemma take_element_keeps:
  "take_element ob q = Yields (h, q1) \<Longrightarrow>
     error_log q1 = error_log q \<and> flush_interval_milliseconds q1 = flush_interval_milliseconds q
     \<and> time_after_last_write q1 = time_after_last_write q \<and> first q1 = first q"
  by (auto simp: take_element_def split: if_splits option.splits prod.splits)

lemma store_element_keeps:
  "store_element ob h q = Yields (f, q1) \<Longrightarrow>
     f = Continue \<and> error_log q1 = error_log q
     \<and> flush_interval_milliseconds q1 = flush_interval_milliseconds q
     \<and> time_after_last_write q1 = time_after_last_write q \<and> first q1 = first q"
  by (auto simp: store_element_def Let_def split: if_splits option.splits)

lemma before_check_returns:
  "before_check ob q = Inr (f, q1) \<Longrightarrow>
     f \<noteq> Break \<and> error_log q1 = error_log q
     \<and> flush_interval_milliseconds q1 = flush_interval_milliseconds q
     \<and> time_after_last_write q1 = time_after_last_write (restart_if_first ob q) \<and> \<not> first q1"
  by (auto simp: before_check_def Let_def split: attempt.splits prod.splits
      dest!: take_element_keeps store_element_keeps)

lemma before_check_raises:
  "before_check ob q = Inl (e, q1) \<Longrightarrow>
     error_log q1 = error_log q
     \<and> flush_interval_milliseconds q1 = flush_interval_milliseconds q
     \<and> time_after_last_write q1 = time_after_last_write (restart_if_first ob q) \<and> \<not> first q1"
  by (auto simp: before_check_def Let_def split: attempt.splits prod.splits
      dest!: take_element_keeps store_element_keeps)

lemma iteration_flow: "fst (iteration ob q) \<noteq> Break"
  by (auto simp: iteration_def loop_try_def split: sum.splits prod.splits flow.splits
      dest!: before_check_returns)

lemma iteration_clock:
  "iteration ob q = (f, q') \<Longrightarrow>
     flush_interval_milliseconds q' = flush_interval_milliseconds q \<and> \<not> first q' \<and>
     time_after_last_write q' =
       (if timed_flush_runs ob q then now_restart ob
        else time_after_last_write (restart_if_first ob q))"
  by (auto simp: iteration_def loop_try_def timed_flush_runs_def flush_if_due_def restart_def
      tryLogCurrentException_def
      split: sum.splits prod.splits flow.splits if_splits
      dest!: before_check_returns before_check_raises)

lemma iteration_log:
  "iteration ob q = (f, q') \<Longrightarrow>
     error_log q' = error_log q \<or>
     data q' = [] \<and> f = Continue \<and> (\<exists>entry. error_log q' = error_log q @ [entry])"
  by (cases "new_throws ob")
    (auto simp: iteration_def loop_try_def flush_if_due_def restart_def flush_raises
      flush_returns tryLogCurrentException_def
      split: sum.splits prod.splits flow.splits if_splits
      dest!: before_check_returns before_check_raises)

lemma pop_raises:
  assumes "pop_throws ob = Some e"
    and "data q = [] \<or> tryPop_timeout (now_wait ob) (restart_if_first ob q) \<noteq> None"
  shows "iteration ob q =
    (Continue, (restart_if_first ob q)
       \<lparr>data := [], error_log := error_log q @ [(PRETTY_FUNCTION_threadFunction, e)]\<rparr>)"
proof -
  from assms have "take_element ob (restart_if_first ob q) = Throws e"
    by (auto simp: take_element_def)
  then show ?thesis
    by (simp add: iteration_def loop_try_def before_check_def tryLogCurrentException_def)
qed

lemma push_back_raises:
  assumes "push_back_throws ob = Some e"
    and "take_element ob (restart_if_first ob q) = Yields (Some element, q1)"
  shows "iteration ob q =
    (Continue, q1\<lparr>data := [], error_log := error_log q @ [(PRETTY_FUNCTION_threadFunction, e)]\<rparr>)"
proof -
  from assms(1) have "store_element ob (Some element) q1 = Throws e"
    by (simp add: store_element_def)
  with assms(2) take_element_keeps [OF assms(2)] show ?thesis
    by (simp add: iteration_def loop_try_def before_check_def tryLogCurrentException_def)
qed

text \<open>
  C1. The writer should stop exactly on a record whose type is \<^verbatim>\<open>SHUTDOWN\<close>. It does
  not: the condition at line 174 assigns \<^verbatim>\<open>SHUTDOWN\<close>, whose value is 0, so it is false
  for every record. A popped record of type \<^verbatim>\<open>SHUTDOWN\<close> is appended to \<open>data\<close> like any
  other and the loop continues (or \<^verbatim>\<open>push_back\<close> raises); there is no final flush and no
  \<^verbatim>\<open>break\<close>.
\<close>

theorem sentinel_is_appended:
  "store_element ob (Some (elem\<lparr>type := SHUTDOWN\<rparr>)) q =
     (case push_back_throws ob of
        Some e \<Rightarrow> Throws e
      | None \<Rightarrow> Yields (Continue, q\<lparr>data := data q @ [elem\<lparr>type := SHUTDOWN\<rparr>]\<rparr>))"
  by (simp add: store_element_def Let_def)

text \<open>
  C5. An exception raised by \<^verbatim>\<open>pop\<close> or \<^verbatim>\<open>tryPop\<close>, or by \<^verbatim>\<open>push_back\<close>, ends the
  iteration in the \<^verbatim>\<open>catch\<close> of the loop: it is logged, \<open>data\<close> is emptied and the loop
  continues. An exception raised inside \<open>flush\<close> is logged by \<open>flush\<close>, which empties
  \<open>data\<close>. In every iteration, either nothing is logged, or exactly one exception is
  logged, \<open>data\<close> is empty afterwards and the loop continues. An iteration has no other
  outcome: no exception leaves it.
\<close>

theorem exceptions_are_contained:
  "(pop_throws ob = Some e \<and>
      (data q = [] \<or> tryPop_timeout (now_wait ob) (restart_if_first ob q) \<noteq> None) \<longrightarrow>
      iteration ob q =
        (Continue, (restart_if_first ob q)
           \<lparr>data := [], error_log := error_log q @ [(PRETTY_FUNCTION_threadFunction, e)]\<rparr>))
   \<and> (push_back_throws ob = Some e \<and>
        take_element ob (restart_if_first ob q) = Yields (Some element, q1) \<longrightarrow>
      iteration ob q =
        (Continue, q1\<lparr>data := [], error_log := error_log q @ [(PRETTY_FUNCTION_threadFunction, e)]\<rparr>))
   \<and> flush (Some e) q = q\<lparr>data := [], error_log := error_log q @ [(PRETTY_FUNCTION_flush, e)]\<rparr>
   \<and> (case iteration ob q of
        (f, q') \<Rightarrow>
          error_log q' = error_log q \<or>
          data q' = [] \<and> f = Continue \<and> (\<exists>entry. error_log q' = error_log q @ [entry]))"
proof -
  obtain f q' where it: "iteration ob q = (f, q')" by (cases "iteration ob q")
  from iteration_log [OF it] it pop_raises [of ob e q] push_back_raises [of ob e q element q1]
    flush_raises [of e q]
  show ?thesis by simp
qed

theorem exceptions_are_contained_witness:
  "pop_throws ((quiet 0 0)\<lparr>pop_throws := Some (Thrown ''pop'')\<rparr>) = Some (Thrown ''pop'')
   \<and> data example_log = []
   \<and> iteration ((quiet 0 0)\<lparr>pop_throws := Some (Thrown ''pop'')\<rparr>) example_log =
       (Continue, example_log\<lparr>first := False,
          error_log := [(PRETTY_FUNCTION_threadFunction, Thrown ''pop'')]\<rparr>)
   \<and> push_back_throws ((quiet 0 0)\<lparr>push_back_throws := Some (Thrown ''push_back'')\<rparr>) =
       Some (Thrown ''push_back'')
   \<and> take_element ((quiet 0 0)\<lparr>push_back_throws := Some (Thrown ''push_back'')\<rparr>)
        (restart_if_first ((quiet 0 0)\<lparr>push_back_throws := Some (Thrown ''push_back'')\<rparr>)
           (example_log\<lparr>queue := [example_element]\<rparr>)) =
       Yields (Some example_element, example_log\<lparr>first := False\<rparr>)
   \<and> iteration ((quiet 0 0)\<lparr>push_back_throws := Some (Thrown ''push_back'')\<rparr>)
        (example_log\<lparr>queue := [example_element]\<rparr>) =
       (Continue, example_log\<lparr>first := False,
          error_log := [(PRETTY_FUNCTION_threadFunction, Thrown ''push_back'')]\<rparr>)"
proof -
  let ?ob1 = "(quiet 0 0)\<lparr>pop_throws := Some (Thrown ''pop'')\<rparr>"
  let ?ob2 = "(quiet 0 0)\<lparr>push_back_throws := Some (Thrown ''push_back'')\<rparr>"
  let ?q2 = "example_log\<lparr>queue := [example_element]\<rparr>"
  have p1: "pop_throws ?ob1 = Some (Thrown ''pop'')"
    by (simp add: quiet_def)
  have d1: "data example_log = []"
    by (simp add: example_log_def QueryLog_new_def)
  have p2: "push_back_throws ?ob2 = Some (Thrown ''push_back'')"
    by (simp add: quiet_def)
  have t2: "take_element ?ob2 (restart_if_first ?ob2 ?q2) =
      Yields (Some example_element, example_log\<lparr>first := False\<rparr>)"
    by (simp add: take_element_def restart_if_first_def restart_def queue_pop_def quiet_def
        example_log_def QueryLog_new_def)
  from exceptions_are_contained [of ?ob1 "Thrown ''pop''" example_log, THEN conjunct1] p1 d1
  have i1: "iteration ?ob1 example_log =
      (Continue, (restart_if_first ?ob1 example_log)
         \<lparr>data := [], error_log := error_log example_log @ [(PRETTY_FUNCTION_threadFunction, Thrown ''pop'')]\<rparr>)"
    by blast
  from exceptions_are_contained [of ?ob2 "Thrown ''push_back''" ?q2 example_element
      "example_log\<lparr>first := False\<rparr>", THEN conjunct2, THEN conjunct1] p2 t2
  have i2: "iteration ?ob2 ?q2 =
      (Continue, example_log\<lparr>first := False, data := [],
         error_log := error_log ?q2 @ [(PRETTY_FUNCTION_threadFunction, Thrown ''push_back'')]\<rparr>)"
    by simp
  have r1: "(restart_if_first ?ob1 example_log)
         \<lparr>data := [], error_log := error_log example_log @ [(PRETTY_FUNCTION_threadFunction, Thrown ''pop'')]\<rparr>
      = example_log\<lparr>first := False, error_log := [(PRETTY_FUNCTION_threadFunction, Thrown ''pop'')]\<rparr>"
    by (simp add: restart_if_first_def restart_def quiet_def example_log_def QueryLog_new_def)
  have r2: "example_log\<lparr>first := False, data := [],
         error_log := error_log ?q2 @ [(PRETTY_FUNCTION_threadFunction, Thrown ''push_back'')]\<rparr>
      = example_log\<lparr>first := False, error_log := [(PRETTY_FUNCTION_threadFunction, Thrown ''push_back'')]\<rparr>"
    by (simp add: example_log_def QueryLog_new_def)
  from p1 d1 p2 t2 i1 i2 show ?thesis
    unfolding r1 r2 by (intro conjI)
qed

subsection \<open>Runs of the writer\<close>

lemma add_keeps:
  "add element q = Some q' \<Longrightarrow>
     flush_interval_milliseconds q' = flush_interval_milliseconds q
     \<and> time_after_last_write q' = time_after_last_write q \<and> first q' = first q"
  by (auto simp: add_def split: option.splits)

lemma threadFunction_Running: "\<exists>q'. threadFunction schedule q = Running q'"
proof (induction schedule arbitrary: q)
  case Nil
  show ?case by simp
next
  case (Cons a schedule)
  show ?case
  proof (cases a)
    case (Submit element)
    then show ?thesis using Cons.IH by simp
  next
    case (Iterate ob)
    obtain f q1 where it: "iteration ob q = (f, q1)" by (cases "iteration ob q")
    with iteration_flow [of ob q] have "f \<noteq> Break" by simp
    with it Iterate Cons.IH [of q1] show ?thesis by (cases f) simp_all
  qed
qed

text \<open>
  C3. After the destructor has pushed its \<^verbatim>\<open>SHUTDOWN\<close> element the writer should stop
  and the destructor return. They do not: since no record makes the loop \<^verbatim>\<open>break\<close>, the
  thread is still in its loop after every schedule, from every state, so it never reaches
  the end of \<open>threadFunction\<close>; and the destructor, which joins the thread, does not
  return.
\<close>

theorem thread_never_returns:
  "threadFunction schedule q \<noteq> Returned q' \<and> destructor elem schedule q = None"
proof -
  have running: "threadFunction s p \<noteq> Returned p'" for s p p'
    using threadFunction_Running [of s p] by auto
  then have "destructor elem schedule q = None"
    by (simp add: destructor_def split: option.split thread.split)
  with running show ?thesis by simp
qed

text \<open>
  C2. A submitted record should reach the table in exactly one write. It does not: a
  record is submitted to a new log and the writer runs one iteration, 150 ms later, in
  which nothing raises. The record is popped, accumulated and flushed; afterwards it is in
  neither \<open>queue\<close> nor \<open>data\<close>, no error is logged, and nothing else of the object has
  changed but the stopwatch and \<open>first\<close>: \<open>flush\<close> built an empty block, dropped it and
  cleared \<open>data\<close>, so the record reached no table.
\<close>

theorem flush_writes_nothing:
  "threadFunction [Submit example_element, Iterate (quiet 0 150000000)] example_log =
     Running (example_log\<lparr>first := False, time_after_last_write := 150000000\<rparr>)"
  by (simp add: example_log_def QueryLog_new_def example_element_def quiet_def
      add_def queue_push_def DBMS_QUERY_LOG_QUEUE_SIZE_def iteration_def loop_try_def
      before_check_def restart_if_first_def restart_def take_element_def queue_pop_def
      store_element_def Let_def flush_if_due_def flush_due_def milliseconds_elapsed_def
      flush_returns)

subsection \<open>The flush deadline\<close>

lemma timed_flush_runs_due:
  "timed_flush_runs ob q \<Longrightarrow>
     flush_interval_milliseconds q \<le> milliseconds_elapsed (now_check ob) (restart_if_first ob q)"
  by (auto simp: timed_flush_runs_def flush_due_def milliseconds_elapsed_def
      split: sum.splits prod.splits flow.splits dest!: before_check_returns)

lemma flush_times_Iterate:
  "flush_times (Iterate ob # schedule) q =
     (if timed_flush_runs ob q then [(now_check ob, now_restart ob)] else [])
     @ flush_times schedule (snd (iteration ob q))"
proof -
  obtain f q' where it: "iteration ob q = (f, q')" by (cases "iteration ob q")
  with iteration_flow [of ob q] have "f \<noteq> Break" by simp
  with it show ?thesis by (cases f) simp_all
qed

lemma flush_times_armed:
  "\<not> first q \<Longrightarrow>
     (case flush_times schedule q of
        [] \<Rightarrow> True
      | later # _ \<Rightarrow> spaced (flush_interval_milliseconds q) (0, time_after_last_write q) later)
     \<and> successively (spaced (flush_interval_milliseconds q)) (flush_times schedule q)"
proof (induction schedule arbitrary: q)
  case Nil
  show ?case by simp
next
  case (Cons a schedule)
  show ?case
  proof (cases a)
    case (Submit element)
    show ?thesis
    proof (cases "add element q")
      case None
      with Submit Cons show ?thesis by simp
    next
      case (Some q')
      from Cons.IH [of q'] Cons.prems add_keeps [OF Some] Submit Some show ?thesis
        by (auto split: list.splits)
    qed
  next
    case (Iterate ob)
    obtain f q' where it: "iteration ob q = (f, q')" by (cases "iteration ob q")
    from iteration_clock [OF it] Cons.prems
    have iv: "flush_interval_milliseconds q' = flush_interval_milliseconds q"
      and nf: "\<not> first q'"
      and tw: "time_after_last_write q' =
         (if timed_flush_runs ob q then now_restart ob else time_after_last_write q)"
      by (simp_all add: restart_if_first_idle)
    have ft: "flush_times (a # schedule) q =
        (if timed_flush_runs ob q then [(now_check ob, now_restart ob)] else [])
        @ flush_times schedule q'"
      by (simp only: Iterate flush_times_Iterate it snd_conv)
    note ih = Cons.IH [OF nf, unfolded iv]
    show ?thesis
    proof (cases "timed_flush_runs ob q")
      case True
      from timed_flush_runs_due [OF True] Cons.prems
      have "spaced (flush_interval_milliseconds q) (0, time_after_last_write q)
              (now_check ob, now_restart ob)"
        by (simp add: spaced_def milliseconds_elapsed_def restart_if_first_idle)
      with ih tw True ft show ?thesis
        by (auto simp: successively_Cons spaced_def split: list.splits)
    next
      case False
      with ih tw ft show ?thesis by (auto split: list.splits)
    qed
  qed
qed

lemma flush_times_spaced:
  "successively (spaced (flush_interval_milliseconds q)) (flush_times schedule q)"
proof (induction schedule arbitrary: q)
  case Nil
  show ?case by simp
next
  case (Cons a schedule)
  show ?case
  proof (cases a)
    case (Submit element)
    show ?thesis
    proof (cases "add element q")
      case None
      with Submit Cons show ?thesis by simp
    next
      case (Some q')
      from Cons.IH [of q'] add_keeps [OF Some] Submit Some show ?thesis by simp
    qed
  next
    case (Iterate ob)
    obtain f q' where it: "iteration ob q = (f, q')" by (cases "iteration ob q")
    from iteration_clock [OF it]
    have iv: "flush_interval_milliseconds q' = flush_interval_milliseconds q"
      and nf: "\<not> first q'"
      and tw: "timed_flush_runs ob q \<Longrightarrow> time_after_last_write q' = now_restart ob"
      by simp_all
    have ft: "flush_times (a # schedule) q =
        (if timed_flush_runs ob q then [(now_check ob, now_restart ob)] else [])
        @ flush_times schedule q'"
      by (simp only: Iterate flush_times_Iterate it snd_conv)
    note armed = flush_times_armed [OF nf, of schedule, unfolded iv]
    show ?thesis
    proof (cases "timed_flush_runs ob q")
      case True
      with armed tw ft show ?thesis
        by (auto simp: successively_Cons spaced_def split: list.splits)
    next
      case False
      with armed ft show ?thesis by simp
    qed
  qed
qed

lemma tryPop_timeout_uint:
  "(case tryPop_timeout now q of Some timeout \<Rightarrow> uint timeout | None \<Rightarrow> 0) =
     max 0 (uint (flush_interval_milliseconds q) - uint (milliseconds_elapsed now q))"
proof (cases "milliseconds_elapsed now q < flush_interval_milliseconds q")
  case True
  then have "uint (milliseconds_elapsed now q) \<le> uint (flush_interval_milliseconds q)"
    by (simp add: word_less_def)
  then have "uint (flush_interval_milliseconds q - milliseconds_elapsed now q) =
      uint (flush_interval_milliseconds q) - uint (milliseconds_elapsed now q)"
    by (rule uint_sub_lem [THEN iffD1])
  with True show ?thesis by (simp add: tryPop_timeout_def word_less_def)
next
  case False
  then show ?thesis by (simp add: tryPop_timeout_def word_less_def)
qed

lemma take_element_waits:
  assumes "data q \<noteq> []" and "pop_throws ob = None"
  shows "take_element ob q =
    (case tryPop_timeout (now_wait ob) q of
       None \<Rightarrow> Yields (None, q)
     | Some timeout \<Rightarrow>
        (case queue_tryPop timeout (arrival ob) (queue q) of
           (has_element, rest) \<Rightarrow> Yields (has_element, q\<lparr>queue := rest\<rparr>)))"
  using assms by (simp add: take_element_def split: option.split)

lemma take_element_arrival:
  assumes "data q \<noteq> []" and "queue q = []" and "pop_throws ob = None"
    and "arrival ob = Some (delay, element)"
  shows "take_element ob q =
    Yields (if uint delay < max 0 (uint (flush_interval_milliseconds q)
                                    - uint (milliseconds_elapsed (now_wait ob) q))
            then Some element else None, q)"
proof -
  from assms(2) have same: "q\<lparr>queue := []\<rparr> = q" by simp
  show ?thesis
  proof (cases "tryPop_timeout (now_wait ob) q")
    case None
    with tryPop_timeout_uint [of "now_wait ob" q]
    have "max 0 (uint (flush_interval_milliseconds q)
                  - uint (milliseconds_elapsed (now_wait ob) q)) = 0"
      by simp
    with None assms show ?thesis
      by (simp add: take_element_waits)
  next
    case (Some timeout)
    with tryPop_timeout_uint [of "now_wait ob" q]
    have "max 0 (uint (flush_interval_milliseconds q)
                  - uint (milliseconds_elapsed (now_wait ob) q)) = uint timeout"
      by simp
    with Some assms same show ?thesis
      by (simp add: take_element_waits queue_tryPop_def word_less_def)
  qed
qed

lemma iteration_flushes_when_due:
  assumes "before_check ob q = Inr (f, q1)"
  shows "iteration ob q =
    (if f = Continue \<and> flush_interval_milliseconds q1 \<le> milliseconds_elapsed (now_check ob) q1
     then (Continue, restart (now_restart ob) (flush (new_throws ob) q1))
     else (f, q1))"
  using assms
  by (cases f) (simp_all add: iteration_def loop_try_def flush_if_due_def flush_due_def)

lemma timed_flush_runs_iff:
  "timed_flush_runs ob q \<longleftrightarrow>
     (\<exists>q1. before_check ob q = Inr (Continue, q1)
        \<and> flush_interval_milliseconds q1 \<le> milliseconds_elapsed (now_check ob) q1)"
  by (auto simp: timed_flush_runs_def flush_due_def split: sum.splits prod.splits flow.splits)

text \<open>
  C4. The timeout given to \<open>tryPop\<close> when \<open>data\<close> is not empty is the interval less the
  milliseconds the stopwatch shows, and \<open>tryPop\<close> is not called once that is zero or
  less: a record that comes while the writer waits on an empty queue is taken exactly when
  it comes fewer than \<open>max 0 (interval - elapsed)\<close> milliseconds into the wait. An
  iteration whose \<^verbatim>\<open>try\<close> block reaches line 183 flushes and restarts the stopwatch when
  the stopwatch shows at least the interval, and otherwise leaves the object as it was at
  that line; these flushes are the ones that \<open>flush_times\<close> lists. In every run, from
  every state, each of them is due at least a full interval, by the stopwatch, after the
  restart that ended the one before it. (The stopwatch is restarted after \<open>flush\<close> has
  returned, and once when the thread starts; the flush on \<^verbatim>\<open>SHUTDOWN\<close> is not a timed
  flush.)
\<close>

theorem flush_deadline_is_rolling:
  "(case tryPop_timeout now q of Some timeout \<Rightarrow> uint timeout | None \<Rightarrow> 0) =
     max 0 (uint (flush_interval_milliseconds q) - uint (milliseconds_elapsed now q))
   \<and> (data q \<noteq> [] \<and> pop_throws ob = None \<longrightarrow>
        take_element ob q =
          (case tryPop_timeout (now_wait ob) q of
             None \<Rightarrow> Yields (None, q)
           | Some timeout \<Rightarrow>
              (case queue_tryPop timeout (arrival ob) (queue q) of
                 (has_element, rest) \<Rightarrow> Yields (has_element, q\<lparr>queue := rest\<rparr>))))
   \<and> (data q \<noteq> [] \<and> queue q = [] \<and> pop_throws ob = None
        \<and> arrival ob = Some (delay, element) \<longrightarrow>
        take_element ob q =
          Yields (if uint delay < max 0 (uint (flush_interval_milliseconds q)
                                          - uint (milliseconds_elapsed (now_wait ob) q))
                  then Some element else None, q))
   \<and> (before_check ob q = Inr (f, q1) \<longrightarrow>
        iteration ob q =
          (if f = Continue
              \<and> flush_interval_milliseconds q1 \<le> milliseconds_elapsed (now_check ob) q1
           then (Continue, restart (now_restart ob) (flush (new_throws ob) q1))
           else (f, q1)))
   \<and> (timed_flush_runs ob q \<longleftrightarrow>
        (\<exists>q2. before_check ob q = Inr (Continue, q2)
           \<and> flush_interval_milliseconds q2 \<le> milliseconds_elapsed (now_check ob) q2))
   \<and> (timed_flush_runs ob q \<longrightarrow>
        flush_interval_milliseconds q \<le>
          milliseconds_elapsed (now_check ob) (restart_if_first ob q))
   \<and> flush_times (Iterate ob # schedule) q =
        (if timed_flush_runs ob q then [(now_check ob, now_restart ob)] else [])
        @ flush_times schedule (snd (iteration ob q))
   \<and> successively (spaced (flush_interval_milliseconds q)) (flush_times schedule q)"
proof (intro conjI impI)
  show "(case tryPop_timeout now q of Some timeout \<Rightarrow> uint timeout | None \<Rightarrow> 0) =
     max 0 (uint (flush_interval_milliseconds q) - uint (milliseconds_elapsed now q))"
    by (rule tryPop_timeout_uint)
next
  assume "data q \<noteq> [] \<and> pop_throws ob = None"
  then show "take_element ob q =
      (case tryPop_timeout (now_wait ob) q of
         None \<Rightarrow> Yields (None, q)
       | Some timeout \<Rightarrow>
          (case queue_tryPop timeout (arrival ob) (queue q) of
             (has_element, rest) \<Rightarrow> Yields (has_element, q\<lparr>queue := rest\<rparr>)))"
    by (simp add: take_element_waits)
next
  assume "data q \<noteq> [] \<and> queue q = [] \<and> pop_throws ob = None
      \<and> arrival ob = Some (delay, element)"
  then show "take_element ob q =
      Yields (if uint delay < max 0 (uint (flush_interval_milliseconds q)
                                      - uint (milliseconds_elapsed (now_wait ob) q))
              then Some element else None, q)"
    by (intro take_element_arrival) simp_all
next
  assume "before_check ob q = Inr (f, q1)"
  then show "iteration ob q =
      (if f = Continue
          \<and> flush_interval_milliseconds q1 \<le> milliseconds_elapsed (now_check ob) q1
       then (Continue, restart (now_restart ob) (flush (new_throws ob) q1))
       else (f, q1))"
    by (rule iteration_flushes_when_due)
next
  show "timed_flush_runs ob q \<longleftrightarrow>
      (\<exists>q2. before_check ob q = Inr (Continue, q2)
         \<and> flush_interval_milliseconds q2 \<le> milliseconds_elapsed (now_check ob) q2)"
    by (rule timed_flush_runs_iff)
next
  assume "timed_flush_runs ob q"
  then show "flush_interval_milliseconds q \<le>
      milliseconds_elapsed (now_check ob) (restart_if_first ob q)"
    by (rule timed_flush_runs_due)
next
  show "flush_times (Iterate ob # schedule) q =
      (if timed_flush_runs ob q then [(now_check ob, now_restart ob)] else [])
      @ flush_times schedule (snd (iteration ob q))"
    by (rule flush_times_Iterate)
next
  show "successively (spaced (flush_interval_milliseconds q)) (flush_times schedule q)"
    by (rule flush_times_spaced)
qed

theorem flush_deadline_is_rolling_witness:
  "data waiting_log \<noteq> [] \<and> queue waiting_log = [] \<and> pop_throws (arrival_at 59) = None
   \<and> arrival (arrival_at 59) = Some (59, example_element)
   \<and> take_element (arrival_at 59) waiting_log = Yields (Some example_element, waiting_log)
   \<and> arrival (arrival_at 60) = Some (60, example_element)
   \<and> take_element (arrival_at 60) waiting_log = Yields (None, waiting_log)
   \<and> before_check (quiet 0 150000000) (example_log\<lparr>queue := [example_element]\<rparr>) =
       Inr (Continue, example_log\<lparr>first := False,
              data := [example_element\<lparr>type := SHUTDOWN\<rparr>]\<rparr>)
   \<and> iteration (quiet 0 150000000) (example_log\<lparr>queue := [example_element]\<rparr>) =
       (Continue, example_log\<lparr>first := False, time_after_last_write := 150000000\<rparr>)
   \<and> before_check (quiet 0 50000000) (example_log\<lparr>queue := [example_element]\<rparr>) =
       Inr (Continue, example_log\<lparr>first := False,
              data := [example_element\<lparr>type := SHUTDOWN\<rparr>]\<rparr>)
   \<and> iteration (quiet 0 50000000) (example_log\<lparr>queue := [example_element]\<rparr>) =
       (Continue, example_log\<lparr>first := False,
          data := [example_element\<lparr>type := SHUTDOWN\<rparr>]\<rparr>)
   \<and> timed_flush_runs (quiet 0 150000000) (example_log\<lparr>queue := [example_element]\<rparr>)
   \<and> flush_interval_milliseconds (example_log\<lparr>queue := [example_element]\<rparr>) \<le>
       milliseconds_elapsed (now_check (quiet 0 150000000))
         (restart_if_first (quiet 0 150000000) (example_log\<lparr>queue := [example_element]\<rparr>))
   \<and> flush_times
        [Submit example_element, Iterate (quiet 0 150000000), Submit example_element,
         Iterate (quiet 160000000 160000000), Iterate (quiet 200000000 250000000)]
        example_log = [(150000000, 150000000), (250000000, 250000000)]
   \<and> successively (spaced 100) [(150000000, 150000000), (250000000, 250000000)]"
proof -
  let ?q = "example_log\<lparr>queue := [example_element]\<rparr>"
  let ?q1 = "example_log\<lparr>first := False, data := [example_element\<lparr>type := SHUTDOWN\<rparr>]\<rparr>"
  let ?schedule = "[Submit example_element, Iterate (quiet 0 150000000), Submit example_element,
         Iterate (quiet 160000000 160000000), Iterate (quiet 200000000 250000000)]"
  note defs = example_log_def QueryLog_new_def quiet_def
      add_def queue_push_def DBMS_QUERY_LOG_QUEUE_SIZE_def iteration_def loop_try_def
      before_check_def restart_if_first_def restart_def take_element_def queue_pop_def
      queue_tryPop_def tryPop_timeout_def store_element_def Let_def flush_if_due_def
      flush_due_def milliseconds_elapsed_def flush_returns timed_flush_runs_def
  note waiting = waiting_log_def arrival_at_def example_log_def QueryLog_new_def quiet_def
  have w: "data waiting_log \<noteq> []" "queue waiting_log = []"
    "pop_throws (arrival_at 59) = None" "arrival (arrival_at 59) = Some (59, example_element)"
    "pop_throws (arrival_at 60) = None" "arrival (arrival_at 60) = Some (60, example_element)"
    by (simp_all add: waiting)
  have elapsed: "milliseconds_elapsed (now_wait (arrival_at d)) waiting_log = 40"
    and interval: "flush_interval_milliseconds waiting_log = 100" for d
    by (simp_all add: waiting milliseconds_elapsed_def)
  from flush_deadline_is_rolling [of 0 waiting_log "arrival_at 59" 59 example_element] w
  have "take_element (arrival_at 59) waiting_log =
      Yields (if uint (59 :: 64 word)
                < max 0 (uint (flush_interval_milliseconds waiting_log)
                    - uint (milliseconds_elapsed (now_wait (arrival_at 59)) waiting_log))
              then Some example_element else None, waiting_log)"
    by blast
  then have taken: "take_element (arrival_at 59) waiting_log =
      Yields (Some example_element, waiting_log)"
    by (simp add: elapsed interval)
  from flush_deadline_is_rolling [of 0 waiting_log "arrival_at 60" 60 example_element] w
  have "take_element (arrival_at 60) waiting_log =
      Yields (if uint (60 :: 64 word)
                < max 0 (uint (flush_interval_milliseconds waiting_log)
                    - uint (milliseconds_elapsed (now_wait (arrival_at 60)) waiting_log))
              then Some example_element else None, waiting_log)"
    by blast
  then have missed: "take_element (arrival_at 60) waiting_log = Yields (None, waiting_log)"
    by (simp add: elapsed interval)
  have before: "before_check (quiet 0 t) ?q = Inr (Continue, ?q1)" for t
    by (simp add: defs)
  have q1: "flush_interval_milliseconds ?q1 = 100"
    "milliseconds_elapsed (now_check (quiet 0 150000000)) ?q1 = 150"
    "milliseconds_elapsed (now_check (quiet 0 50000000)) ?q1 = 50"
    by (simp_all add: example_log_def QueryLog_new_def quiet_def milliseconds_elapsed_def)
  from flush_deadline_is_rolling [of 0 ?q "quiet 0 150000000" 0 example_element Continue ?q1]
    before [of 150000000]
  have "iteration (quiet 0 150000000) ?q =
      (if Continue = Continue
          \<and> flush_interval_milliseconds ?q1
              \<le> milliseconds_elapsed (now_check (quiet 0 150000000)) ?q1
       then (Continue, restart (now_restart (quiet 0 150000000))
                         (flush (new_throws (quiet 0 150000000)) ?q1))
       else (Continue, ?q1))"
    by blast
  then have due: "iteration (quiet 0 150000000) ?q =
      (Continue, example_log\<lparr>first := False, time_after_last_write := 150000000\<rparr>)"
    unfolding q1
    by (simp add: quiet_def restart_def flush_returns example_log_def QueryLog_new_def)
  from flush_deadline_is_rolling [of 0 ?q "quiet 0 50000000" 0 example_element Continue ?q1]
    before [of 50000000]
  have "iteration (quiet 0 50000000) ?q =
      (if Continue = Continue
          \<and> flush_interval_milliseconds ?q1
              \<le> milliseconds_elapsed (now_check (quiet 0 50000000)) ?q1
       then (Continue, restart (now_restart (quiet 0 50000000))
                         (flush (new_throws (quiet 0 50000000)) ?q1))
       else (Continue, ?q1))"
    by blast
  then have early: "iteration (quiet 0 50000000) ?q = (Continue, ?q1)"
    unfolding q1 by simp
  have runs: "timed_flush_runs (quiet 0 150000000) ?q"
    by (simp add: defs)
  have times: "flush_times ?schedule example_log =
      [(150000000, 150000000), (250000000, 250000000)]"
    by (simp add: defs)
  have hundred: "flush_interval_milliseconds example_log = 100"
    by (simp add: example_log_def QueryLog_new_def)
  from flush_deadline_is_rolling [of 0 ?q "quiet 0 150000000" 0 example_element Continue ?q1
      ?schedule] runs
  have late: "flush_interval_milliseconds ?q \<le>
       milliseconds_elapsed (now_check (quiet 0 150000000))
         (restart_if_first (quiet 0 150000000) ?q)"
    by blast
  from flush_deadline_is_rolling [of 0 example_log "quiet 0 0" 0 example_element Continue ?q1
      ?schedule]
  have apart: "successively (spaced 100) [(150000000, 150000000), (250000000, 250000000)]"
    unfolding times hundred by blast
  from w taken missed before [of 150000000] due before [of 50000000] early runs late times
    apart
  show ?thesis by (intro conjI)
qed

subsection \<open>h3HexAreaM2\<close>

lemma executeImpl_rows_raises:
  "executeImpl_rows h M col [i..<n] dst = Inl (ARGUMENT_OUT_OF_BOUND r) \<Longrightarrow>
     M < r \<and> (\<exists>row. i \<le> row \<and> row < n \<and> r = getUInt col row
                \<and> (\<forall>earlier. i \<le> earlier \<and> earlier < row \<longrightarrow> getUInt col earlier \<le> M))"
proof (induction "n - i" arbitrary: i dst)
  case 0
  then show ?case by simp
next
  case (Suc k)
  then have rows: "[i..<n] = i # [Suc i..<n]" and k: "k = n - Suc i"
    by (simp_all add: upt_conv_Cons)
  show ?case
  proof (cases "M < getUInt col i")
    case True
    with Suc.prems rows have "r = getUInt col i" by (simp add: Let_def)
    with True Suc.hyps(2) show ?thesis by auto
  next
    case False
    with Suc.prems rows
    have "executeImpl_rows h M col [Suc i..<n] (dst[i := h (getUInt col i)]) =
        Inl (ARGUMENT_OUT_OF_BOUND r)"
      by (simp add: Let_def)
    from Suc.hyps(1) [OF k this]
    obtain row where row: "M < r" "Suc i \<le> row" "row < n" "r = getUInt col row"
      "\<forall>earlier. Suc i \<le> earlier \<and> earlier < row \<longrightarrow> getUInt col earlier \<le> M"
      by blast
    have "\<forall>earlier. i \<le> earlier \<and> earlier < row \<longrightarrow> getUInt col earlier \<le> M"
    proof (intro allI impI)
      fix earlier
      assume "i \<le> earlier \<and> earlier < row"
      then have "earlier = i \<or> Suc i \<le> earlier \<and> earlier < row" by auto
      with False row(5) show "getUInt col earlier \<le> M" by auto
    qed
    with row show ?thesis by (intro conjI exI [of _ row]) auto
  qed
qed

lemma executeImpl_rows_returns:
  "\<forall>row \<in> set rows. getUInt col row \<le> M \<Longrightarrow>
     executeImpl_rows h M col rows dst =
       Inr (fold (\<lambda>row d. d[row := h (getUInt col row)]) rows dst)"
  by (induction rows arbitrary: dst) (auto simp: Let_def)

lemma executeImpl_rows_Inl_iff:
  "(\<exists>e. executeImpl_rows h M col rows dst = Inl e) \<longleftrightarrow>
     (\<exists>row \<in> set rows. M < getUInt col row)"
  by (induction rows arbitrary: dst) (auto simp: Let_def)

lemma fill_rows:
  "k \<le> length dst \<Longrightarrow>
     fold (\<lambda>row d. d[row := f row]) [0..<k] dst = map f [0..<k] @ drop k dst"
proof (induction k)
  case 0
  show ?case by simp
next
  case (Suc k)
  then have "fold (\<lambda>row d. d[row := f row]) [0..<Suc k] dst =
      (map f [0..<k] @ drop k dst)[k := f k]"
    by simp
  also have "\<dots> = map f [0..<k] @ (drop k dst)[0 := f k]"
    by (simp add: list_update_append)
  also from Suc.prems have "(drop k dst)[0 := f k] = f k # drop (Suc k) dst"
    by (cases "drop k dst") (auto simp: drop_Suc drop_tl)
  finally show ?case by simp
qed

text \<open>
  C8. \<open>executeImpl\<close> raises exactly when the resolution of some row exceeds
  \<^verbatim>\<open>MAX_H3_RES\<close>; the exception it raises is \<^verbatim>\<open>ARGUMENT_OUT_OF_BOUND\<close> for the resolution
  of the first such row (every row before it is within the bound); and when no row exceeds
  the bound, the result column holds \<open>hexAreaM2 resolution\<close> for every row, in row order.
\<close>

theorem executeImpl_checks_resolution:
  "((\<exists>e. executeImpl h M u col n = Inl e) \<longleftrightarrow> (\<exists>row<n. M < getUInt col row))
   \<and> (executeImpl h M u col n = Inl (ARGUMENT_OUT_OF_BOUND r) \<longrightarrow>
        M < r \<and> (\<exists>row<n. r = getUInt col row
                    \<and> (\<forall>earlier<row. getUInt col earlier \<le> M)))
   \<and> ((\<forall>row<n. getUInt col row \<le> M) \<longrightarrow>
        executeImpl h M u col n = Inr (map (\<lambda>row. h (getUInt col row)) [0..<n]))"
proof -
  have a: "(\<exists>e. executeImpl h M u col n = Inl e) \<longleftrightarrow> (\<exists>row<n. M < getUInt col row)"
    unfolding executeImpl_def executeImpl_rows_Inl_iff by auto
  have b: "M < r \<and> (\<exists>row<n. r = getUInt col row \<and> (\<forall>earlier<row. getUInt col earlier \<le> M))"
    if "executeImpl h M u col n = Inl (ARGUMENT_OUT_OF_BOUND r)"
    using executeImpl_rows_raises [OF that [unfolded executeImpl_def]] by auto
  have c: "executeImpl h M u col n = Inr (map (\<lambda>row. h (getUInt col row)) [0..<n])"
    if "\<forall>row<n. getUInt col row \<le> M"
  proof -
    from that have "\<forall>row \<in> set [0..<n]. getUInt col row \<le> M" by simp
    then have "executeImpl_rows h M col [0..<n] (replicate n u) =
        Inr (fold (\<lambda>row d. d[row := h (getUInt col row)]) [0..<n] (replicate n u))"
      by (rule executeImpl_rows_returns)
    with fill_rows [of n "replicate n u" "\<lambda>row. h (getUInt col row)"] show ?thesis
      by (simp add: executeImpl_def)
  qed
  from a b c show ?thesis by blast
qed

theorem executeImpl_checks_resolution_witness:
  "getUInt [0, 15] 0 \<le> 15 \<and> getUInt [0, 15] 1 \<le> 15
   \<and> executeImpl unat 15 0 [0, 15] 2 = Inr [0, 15]
   \<and> executeImpl unat 15 0 [3, 16] 2 = Inl (ARGUMENT_OUT_OF_BOUND 16)
   \<and> (15 :: 64 word) < 16 \<and> getUInt [3, 16] 1 = 16"
proof -
  have up: "[0..<2] = [0, Suc 0]"
    by (simp add: numeral_2_eq_2)
  have le0: "getUInt [0, 15] 0 \<le> 15" and le1: "getUInt [0, 15] 1 \<le> 15"
    by (simp_all add: getUInt_def)
  have le: "\<forall>row<2. getUInt [0, 15] row \<le> 15"
  proof (intro allI impI)
    fix row :: nat
    assume "row < 2"
    then have "row = 0 \<or> row = 1" by auto
    with le0 le1 show "getUInt [0, 15] row \<le> 15" by auto
  qed
  from executeImpl_checks_resolution [of unat 15 0 "[0, 15]" 2] le
  have "executeImpl unat 15 0 [0, 15] 2 = Inr (map (\<lambda>row. unat (getUInt [0, 15] row)) [0..<2])"
    by blast
  then have ok: "executeImpl unat 15 0 [0, 15] 2 = Inr [0, 15]"
    by (simp add: up getUInt_def)
  have "\<exists>row<2. 15 < getUInt [3, 16] row"
    by (rule exI [of _ 1]) (simp add: getUInt_def)
  with executeImpl_checks_resolution [of unat 15 0 "[3, 16]" 2]
  obtain e where "executeImpl unat 15 0 [3, 16] 2 = Inl e" by blast
  moreover obtain r where "e = ARGUMENT_OUT_OF_BOUND r" by (cases e)
  ultimately have bad: "executeImpl unat 15 0 [3, 16] 2 = Inl (ARGUMENT_OUT_OF_BOUND r)"
    by simp
  from executeImpl_checks_resolution [of unat 15 0 "[3, 16]" 2 r] bad
  obtain row where "row < 2" and "r = getUInt [3, 16] row" and "15 < r" by blast
  then have "row = 0 \<or> row = 1" by auto
  with \<open>r = getUInt [3, 16] row\<close> \<open>15 < r\<close> have "r = 16"
    by (auto simp: getUInt_def)
  with bad le0 le1 ok show ?thesis
    by (simp add: getUInt_def)
qed

end
